theory Spec2Isabelle
  imports Complex_Main "HOL-Library.Sublist"
begin

section \<open>Data model\<close>

text \<open>
  The bot reads one JSON document from the storefront and turns the entries of its
  \<open>specials\<close> collection into offer dictionaries. An entry is a JSON object whose members
  the code reads with \<open>dict.get\<close>; each member is absent, \<open>null\<close> or a value of the type the
  storefront documents for it (a string or an integer). \<open>dict.get(k)\<close> gives \<open>None\<close> for an
  absent and for a \<open>null\<close> member; \<open>dict.get(k, d)\<close> gives \<open>d\<close> only for an absent one.
\<close>

datatype 'a member = Absent | Null | Val 'a

fun get :: "'a member \<Rightarrow> 'a option" where
  "get Absent = None"
| "get Null = None"
| "get (Val v) = Some v"

fun get_default :: "'a member \<Rightarrow> 'a \<Rightarrow> 'a option" where
  "get_default Absent d = Some d"
| "get_default Null d = None"
| "get_default (Val v) d = Some v"

text \<open>One element of \<open>data['specials']['items']\<close>, with the six members the code reads.\<close>

record entry =
  raw_name :: "string member"
  raw_large_capsule_image :: "string member"
  raw_id :: "int member"
  raw_discount_percent :: "int member"
  raw_original_price :: "int member"
  raw_discount_expiration :: "int member"

text \<open>
  The dictionary appended to \<open>free_games\<close>. \<open>None\<close> is Python's \<open>None\<close>. The price is a
  Python \<open>float\<close> (or the integer 0): a double, kept as the rational number it denotes.
\<close>

record offer =
  name :: "string option"
  image_url :: "string option"
  status :: string
  store_url :: string
  original_price :: rat
  discount_end :: "int option"

text \<open>The exceptions that the modelled code can meet.\<close>

datatype py_error =
  ClientError          \<comment> \<open>\<open>session.get\<close> failed: no connection, time-out, ...\<close>
| DecodeError          \<comment> \<open>\<open>response.json()\<close> could not decode the body\<close>
| OverflowError        \<comment> \<open>\<open>int / int\<close>: the result is too large for a float\<close>
| TimestampError       \<comment> \<open>\<open>datetime.fromtimestamp\<close>: year outside 1..9999\<close>
| HTTPException        \<comment> \<open>\<open>channel.send\<close> failed\<close>

text \<open>What \<open>session.get\<close> meets: no response at all, or a status and a body.\<close>

record specials_obj =
  items :: "entry list option"

record featured_categories =
  specials :: "specials_obj option"

datatype body = Unparseable | Json featured_categories

datatype response = NoResponse | Response int body

section \<open>Formatting\<close>

text \<open>Python's \<open>str\<close> of an integer, and of a value that may be \<open>None\<close>, as an f-string
  renders them.\<close>

definition digit_char :: "nat \<Rightarrow> char" where
  "digit_char d = ''0123456789'' ! d"

fun str_nat :: "nat \<Rightarrow> string" where
  "str_nat n = (if n < 10 then [digit_char n] else str_nat (n div 10) @ [digit_char (n mod 10)])"

definition str_int :: "int \<Rightarrow> string" where
  "str_int i = (if i < 0 then CHR ''-'' # str_nat (nat (- i)) else str_nat (nat i))"

definition fmt_str :: "string option \<Rightarrow> string" where
  "fmt_str s = (case s of None \<Rightarrow> ''None'' | Some t \<Rightarrow> t)"

definition fmt_int :: "int option \<Rightarrow> string" where
  "fmt_int i = (case i of None \<Rightarrow> ''None'' | Some n \<Rightarrow> str_int n)"

section \<open>SteamAPI\<close>

definition store_url_base :: string where
  "store_url_base = ''https://store.steampowered.com''"

text \<open>
  Python's \<open>p / 100\<close> on an integer \<open>p\<close> (\<open>int.__truediv__\<close>): the quotient rounded to a double,
  that is to 53 significant bits, a tie going to the even neighbour, and \<open>OverflowError\<close>
  when the rounded quotient does not fit a double. The double is kept as the rational
  number it denotes. \<open>bit_length\<close> is Python's \<open>int.bit_length\<close>; \<open>quotient_exponent a\<close> is the
  \<open>e\<close> with \<open>2^e \<le> a / 100 < 2^(e+1)\<close>. A non-zero quotient is at least \<open>1 / 100\<close>, far above the
  subnormal doubles.
\<close>

fun bit_length :: "nat \<Rightarrow> nat" where
  "bit_length n = (if n = 0 then 0 else Suc (bit_length (n div 2)))"

definition round_half_even :: "rat \<Rightarrow> int" where
  "round_half_even x =
     (let f = \<lfloor>x\<rfloor>; d = x - of_int f
      in if d < 1 / 2 then f else if 1 / 2 < d then f + 1 else if even f then f else f + 1)"

definition quotient_exponent :: "nat \<Rightarrow> int" where
  "quotient_exponent a =
     (let k = int (bit_length a) - 7
      in if 2 powi k \<le> (of_nat a / 100 :: rat) then k else k - 1)"

definition rounded_quotient :: "nat \<Rightarrow> rat" where
  "rounded_quotient a =
     (let e = quotient_exponent a;
          m = round_half_even (of_nat a / 100 / 2 powi (e - 52))
      in of_int m * 2 powi (e - 52))"

definition divide_by_100 :: "int \<Rightarrow> py_error + rat" where
  "divide_by_100 p =
     (if p = 0 then Inr 0
      else
        (let r = rounded_quotient (nat \<bar>p\<bar>)
         in if 2 ^ 1024 \<le> r then Inl OverflowError
            else Inr (if p < 0 then - r else r)))"

text \<open>\<open>game.get('original_price', 0) / 100 if game.get('original_price') else 0\<close>:
  \<open>None\<close> and \<open>0\<close> are falsy.\<close>

definition price_of :: "entry \<Rightarrow> py_error + rat" where
  "price_of game =
     (case get (raw_original_price game) of
        None \<Rightarrow> Inr 0
      | Some p \<Rightarrow> if p \<noteq> 0 then divide_by_100 p else Inr 0)"

text \<open>The dictionary literal of lines 60 to 67. Only the price can raise.\<close>

definition make_offer :: "entry \<Rightarrow> py_error + offer" where
  "make_offer game =
     (case price_of game of
        Inl err \<Rightarrow> Inl err
      | Inr price \<Rightarrow>
          Inr \<lparr> name = get (raw_name game),
                image_url = get (raw_large_capsule_image game),
                status = ''Free to Keep!'',
                store_url = store_url_base @ ''/app/'' @ fmt_int (get (raw_id game)),
                original_price = price,
                discount_end = get_default (raw_discount_expiration game) 0 \<rparr>)"

text \<open>\<open>game.get('discount_percent') == 100\<close>\<close>

definition is_free :: "entry \<Rightarrow> bool" where
  "is_free game = (get (raw_discount_percent game) = Some 100)"

text \<open>
  The \<open>for game in specials\<close> loop, on the list \<open>free_games\<close> built so far. An exception
  raised while the dictionary of a game is built leaves the loop before the \<open>append\<close>:
  the result is \<open>free_games\<close> as it stands then, and the exception.
\<close>

fun collect :: "entry list \<Rightarrow> offer list \<Rightarrow> offer list \<times> py_error option" where
  "collect [] free_games = (free_games, None)"
| "collect (game # rest) free_games =
     (if is_free game then
        (case make_offer game of
           Inl err \<Rightarrow> (free_games, Some err)
         | Inr offer \<Rightarrow> collect rest (free_games @ [offer]))
      else collect rest free_games)"

text \<open>\<open>data.get('specials', {}).get('items', [])\<close>\<close>

definition specials_items :: "featured_categories \<Rightarrow> entry list" where
  "specials_items data =
     (case specials data of
        None \<Rightarrow> []
      | Some sp \<Rightarrow> (case items sp of None \<Rightarrow> [] | Some xs \<Rightarrow> xs))"

text \<open>
  The body of the \<open>try\<close> block of \<open>get_featured_free_games\<close>. It returns \<open>free_games\<close> as it
  stands when the block is left, and the exception that left it, if any.
\<close>

definition featured_try :: "response \<Rightarrow> offer list \<Rightarrow> offer list \<times> py_error option" where
  "featured_try r free_games =
     (case r of
        NoResponse \<Rightarrow> (free_games, Some ClientError)
      | Response st b \<Rightarrow>
          if st = 200 then
            (case b of
               Unparseable \<Rightarrow> (free_games, Some DecodeError)
             | Json data \<Rightarrow> collect (specials_items data) free_games)
          else (free_games, None))"

text \<open>
  \<open>get_featured_free_games\<close>: \<open>except Exception\<close> logs whatever left the block, and the
  function returns \<open>free_games\<close>. \<open>Inl\<close> would be an exception leaving the function.
\<close>

definition get_featured_free_games :: "response \<Rightarrow> py_error + offer list" where
  "get_featured_free_games r =
     (case featured_try r [] of
        (free_games, None) \<Rightarrow> Inr free_games
      | (free_games, Some e) \<Rightarrow> Inr free_games)"

text \<open>The loop of lines 110 to 115, on the set \<open>seen\<close> and the list \<open>unique_games\<close>.\<close>

fun unique_loop :: "offer list \<Rightarrow> string option set \<Rightarrow> offer list \<Rightarrow> offer list" where
  "unique_loop [] seen unique_games = unique_games"
| "unique_loop (game # rest) seen unique_games =
     (if name game \<notin> seen
      then unique_loop rest (insert (name game) seen) (unique_games @ [game])
      else unique_loop rest seen unique_games)"

text \<open>
  \<open>get_all_free_games\<close>. The caller tests the result against \<open>None\<close>, so the result is an
  option: \<open>Inr None\<close> is Python's \<open>None\<close>, \<open>Inl\<close> an exception leaving the function.
\<close>

definition get_all_free_games :: "response \<Rightarrow> py_error + offer list option" where
  "get_all_free_games r =
     (case get_featured_free_games r of
        Inl e \<Rightarrow> Inl e
      | Inr featured_games \<Rightarrow>
          (let free_games = (if featured_games \<noteq> [] then [] @ featured_games else [])
           in Inr (Some (unique_loop free_games {} []))))"

section \<open>The cycle\<close>

text \<open>\<open>f"{game['name']} - {game['status']}"\<close>\<close>

definition identity_key :: "offer \<Rightarrow> string" where
  "identity_key game = fmt_str (name game) @ '' - '' @ status game"

text \<open>
  The chat side: roles of the channel's guild, the embed, the message. The texts that
  Python renders from a number (\<open>:.2f\<close>, \<open>strftime\<close>) are kept as the number.
\<close>

record role =
  role_name :: string
  mention :: string

record channel =
  guild_roles :: "role list"

datatype embed_field = OfferEnds int | StorePage string

record embed =
  title :: "string option"
  description_status :: string
  description_price :: rat
  url :: string
  thumbnail :: "string option"
  embed_fields :: "embed_field list"

record message =
  content :: string
  message_embed :: embed

text \<open>What the cycle finds around it: the channel, if the bot can see it, and the
  messages whose \<open>channel.send\<close> raises.\<close>

record world =
  bot_channel :: "channel option"
  send_raises :: "message \<Rightarrow> bool"

definition TARGET_ROLE_NAME :: string where
  "TARGET_ROLE_NAME = ''Free Games''"

text \<open>\<open>discord.utils.get(roles, name=...)\<close>: the first role of that name.\<close>

definition utils_get :: "role list \<Rightarrow> string \<Rightarrow> role option" where
  "utils_get rs n = find (\<lambda>r. role_name r = n) rs"

text \<open>\<open>datetime.fromtimestamp(t, tz=timezone.utc)\<close> raises outside the years 1 to 9999.\<close>

definition fromtimestamp :: "int \<Rightarrow> py_error + int" where
  "fromtimestamp t =
     (if - 62135596800 \<le> t \<and> t \<le> 253402300799 then Inr t else Inl TimestampError)"

text \<open>Lines 169 to 182: the embed of one game.\<close>

definition build_embed :: "offer \<Rightarrow> py_error + embed" where
  "build_embed game =
     (let e = \<lparr> title = name game,
                description_status = status game,
                description_price = original_price game,
                url = store_url game,
                thumbnail = image_url game,
                embed_fields = [] \<rparr>
      in (case discount_end game of
            None \<Rightarrow> Inr (e\<lparr> embed_fields := [StorePage (store_url game)] \<rparr>)
          | Some t \<Rightarrow>
              if t \<noteq> 0 then
                (case fromtimestamp t of
                   Inl err \<Rightarrow> Inl err
                 | Inr end_time \<Rightarrow>
                     Inr (e\<lparr> embed_fields := [OfferEnds end_time, StorePage (store_url game)] \<rparr>))
              else Inr (e\<lparr> embed_fields := [StorePage (store_url game)] \<rparr>)))"

text \<open>The body of the \<open>try\<close> block inside the loop: build the embed, send the message.\<close>

definition try_notify :: "world \<Rightarrow> role \<Rightarrow> offer \<Rightarrow> py_error + message" where
  "try_notify w rl game =
     (case build_embed game of
        Inl err \<Rightarrow> Inl err
      | Inr e \<Rightarrow>
          (let m = \<lparr> content = ''Hey '' @ mention rl @ '', a new free game is available!'',
                     message_embed = e \<rparr>
           in if send_raises w m then Inl HTTPException else Inr m))"

text \<open>What the loop leaves behind for each game: the message sent, or the error logged.\<close>

datatype notice = Notified offer message | NotifyError offer py_error

fun notify_loop :: "world \<Rightarrow> role \<Rightarrow> offer list \<Rightarrow> notice list \<Rightarrow> notice list" where
  "notify_loop w rl [] noted = noted"
| "notify_loop w rl (game # rest) noted =
     (case try_notify w rl game of
        Inr m \<Rightarrow> notify_loop w rl rest (noted @ [Notified game m])
      | Inl err \<Rightarrow> notify_loop w rl rest (noted @ [NotifyError game err]))"

text \<open>How one run of \<open>check_free_games\<close> ends.\<close>

datatype cycle_end =
  Raised py_error
| FailedToFetch
| NoChannel
| NoRole
| Completed "offer list" "notice list"

text \<open>
  \<open>check_free_games\<close> from line 147 on, on the value of \<open>games\<close> and the global
  \<open>previous_games\<close>: the way the run ends and the value of \<open>previous_games\<close> after it.
\<close>

definition check_games :: "world \<Rightarrow> offer list option \<Rightarrow> string set \<Rightarrow> cycle_end \<times> string set" where
  "check_games w fetched previous_games =
     (case fetched of
        None \<Rightarrow> (FailedToFetch, previous_games)
      | Some games \<Rightarrow>
          (case bot_channel w of
             None \<Rightarrow> (NoChannel, previous_games)
           | Some ch \<Rightarrow>
               (case utils_get (guild_roles ch) TARGET_ROLE_NAME of
                  None \<Rightarrow> (NoRole, previous_games)
                | Some rl \<Rightarrow>
                    (let current_games = identity_key ` set games;
                         new_games = filter (\<lambda>game. identity_key game \<notin> previous_games) games
                     in (Completed new_games (notify_loop w rl new_games []), current_games)))))"

text \<open>\<open>check_free_games\<close>: fetch, then the rest.\<close>

definition check_free_games :: "world \<Rightarrow> response \<Rightarrow> string set \<Rightarrow> cycle_end \<times> string set" where
  "check_free_games w r previous_games =
     (case get_all_free_games r of
        Inl e \<Rightarrow> (Raised e, previous_games)
      | Inr fetched \<Rightarrow> check_games w fetched previous_games)"

section \<open>Notions used to state the properties\<close>

text \<open>The positions of a list of games whose name already stands at an earlier position:
  the duplicate occurrences beyond each first.\<close>

definition later_duplicates :: "offer list \<Rightarrow> nat list" where
  "later_duplicates gs =
     filter (\<lambda>i. name (gs ! i) \<in> name ` set (take i gs)) [0..<length gs]"

text \<open>What one pass of the notification loop leaves behind for one game.\<close>

definition notice_of :: "world \<Rightarrow> role \<Rightarrow> offer \<Rightarrow> notice" where
  "notice_of w rl g =
     (case try_notify w rl g of Inr m \<Rightarrow> Notified g m | Inl err \<Rightarrow> NotifyError g err)"

text \<open>A successful response whose \<open>specials\<close> collection holds the given entries.\<close>

definition catalog :: "entry list \<Rightarrow> response" where
  "catalog its = Response 200 (Json \<lparr> specials = Some \<lparr> items = Some its \<rparr> \<rparr>)"

section \<open>Example values\<close>

text \<open>Catalog entries: one with every member, one whose price is negative, one with the
  optional members missing, and one that repeats the name of the first.\<close>

definition paid_entry :: entry where
  "paid_entry = \<lparr> raw_name = Val ''Portal'',
      raw_large_capsule_image = Val ''https://cdn/portal.jpg'',
      raw_id = Val 400, raw_discount_percent = Val 100, raw_original_price = Val 1999,
      raw_discount_expiration = Val 1700000000 \<rparr>"

definition negative_price_entry :: entry where
  "negative_price_entry = \<lparr> raw_name = Val ''Refund'', raw_large_capsule_image = Absent,
      raw_id = Val 7, raw_discount_percent = Val 100, raw_original_price = Val (- 1999),
      raw_discount_expiration = Absent \<rparr>"

definition bare_entry :: entry where
  "bare_entry = \<lparr> raw_name = Val ''Bare'', raw_large_capsule_image = Absent,
      raw_id = Val 9, raw_discount_percent = Val 100, raw_original_price = Absent,
      raw_discount_expiration = Absent \<rparr>"

definition repeat_entry :: entry where
  "repeat_entry = \<lparr> raw_name = Val ''Portal'', raw_large_capsule_image = Absent,
      raw_id = Val 401, raw_discount_percent = Val 100, raw_original_price = Val 500,
      raw_discount_expiration = Null \<rparr>"

text \<open>An entry at 100 percent whose price does not fit a double, and the offers that
  the fetch builds from the other entries.\<close>

definition huge_entry :: entry where
  "huge_entry = \<lparr> raw_name = Val ''Huge'', raw_large_capsule_image = Absent,
      raw_id = Val 8, raw_discount_percent = Val 100, raw_original_price = Val (10 ^ 400),
      raw_discount_expiration = Absent \<rparr>"

definition portal_offer :: offer where
  "portal_offer = \<lparr> name = Some ''Portal'', image_url = Some ''https://cdn/portal.jpg'',
      status = ''Free to Keep!'', store_url = ''https://store.steampowered.com/app/400'',
      original_price = 5626684784446013 / 281474976710656,
      discount_end = Some 1700000000 \<rparr>"

definition refund_offer :: offer where
  "refund_offer = \<lparr> name = Some ''Refund'', image_url = None,
      status = ''Free to Keep!'', store_url = ''https://store.steampowered.com/app/7'',
      original_price = - 5626684784446013 / 281474976710656,
      discount_end = Some 0 \<rparr>"

definition bare_offer :: offer where
  "bare_offer = \<lparr> name = Some ''Bare'', image_url = None,
      status = ''Free to Keep!'', store_url = ''https://store.steampowered.com/app/9'',
      original_price = 0, discount_end = Some 0 \<rparr>"

definition repeat_offer :: offer where
  "repeat_offer = \<lparr> name = Some ''Portal'', image_url = None,
      status = ''Free to Keep!'', store_url = ''https://store.steampowered.com/app/401'',
      original_price = 5, discount_end = None \<rparr>"

text \<open>Offers, a guild that has the role, a world in which every send succeeds and one in
  which the send for the game \<open>B\<close> fails.\<close>

definition game_A :: offer where
  "game_A = \<lparr> name = Some ''A'', image_url = None, status = ''Free'',
      store_url = ''https://store.steampowered.com/app/1'', original_price = 0,
      discount_end = Some 0 \<rparr>"

definition game_B :: offer where
  "game_B = \<lparr> name = Some ''B'', image_url = None, status = ''Free'',
      store_url = ''https://store.steampowered.com/app/2'', original_price = 0,
      discount_end = Some 0 \<rparr>"

definition free_games_role :: role where
  "free_games_role = \<lparr> role_name = ''Free Games'', mention = ''<@&7>'' \<rparr>"

definition quiet_world :: world where
  "quiet_world =
     \<lparr> bot_channel = Some \<lparr> guild_roles = [free_games_role] \<rparr>, send_raises = (\<lambda>m. False) \<rparr>"

definition game_C :: offer where
  "game_C = \<lparr> name = Some ''C'', image_url = None, status = ''Free'',
      store_url = ''https://store.steampowered.com/app/4'', original_price = 0,
      discount_end = Some 0 \<rparr>"

definition flaky_world :: world where
  "flaky_world =
     \<lparr> bot_channel = Some \<lparr> guild_roles = [free_games_role] \<rparr>,
       send_raises = (\<lambda>m. title (message_embed m) = Some ''B'') \<rparr>"

section \<open>The delta of a cycle\<close>

lemma check_games_Completed:
  assumes "check_games w (Some latest) previous = (Completed added notices, snapshot)"
  shows "added = filter (\<lambda>g. identity_key g \<notin> previous) latest"
    and "snapshot = identity_key ` set latest"
  using assms
  by (auto simp: check_games_def Let_def split: option.splits)

lemma quiet_role: "utils_get [free_games_role] TARGET_ROLE_NAME = Some free_games_role"
  by (simp add: utils_get_def TARGET_ROLE_NAME_def free_games_role_def)

lemma check_games_quiet:
  "check_games quiet_world (Some games) previous =
     (Completed (filter (\<lambda>g. identity_key g \<notin> previous) games)
        (notify_loop quiet_world free_games_role
           (filter (\<lambda>g. identity_key g \<notin> previous) games) []),
      identity_key ` set games)"
  by (simp add: check_games_def quiet_world_def quiet_role Let_def)

lemma key_A: "identity_key game_A = ''A - Free''"
  by (simp add: identity_key_def game_A_def fmt_str_def)

lemma key_B: "identity_key game_B = ''B - Free''"
  by (simp add: identity_key_def game_B_def fmt_str_def)

text \<open>
  C1. When a cycle runs to its end on the fetched list \<open>latest\<close> with the snapshot
  \<open>previous\<close>, the games it announces are the games of \<open>latest\<close>, in the order of \<open>latest\<close>,
  whose key \<open>name - status\<close> is not in \<open>previous\<close>; with an empty \<open>previous\<close> they are all of
  \<open>latest\<close>.
\<close>

theorem delta_correct:
  assumes "check_games w (Some latest) previous = (Completed added notices, snapshot)"
  shows "added = filter (\<lambda>g. identity_key g \<notin> previous) latest
       \<and> subseq added latest
       \<and> (previous = {} \<longrightarrow> added = latest)"
proof -
  have a: "added = filter (\<lambda>g. identity_key g \<notin> previous) latest"
    using assms by (rule check_games_Completed)
  have "subseq (filter (\<lambda>g. identity_key g \<notin> previous) latest) latest"
    by (rule subseq_filter_left)
  with a show ?thesis by simp
qed

theorem delta_correct_witness:
  "check_games quiet_world (Some [game_A, game_B]) {''A - Free''} =
     (Completed [game_B] (notify_loop quiet_world free_games_role [game_B] []),
      {''A - Free'', ''B - Free''})
   \<and> [game_B] = filter (\<lambda>g. identity_key g \<notin> {''A - Free''}) [game_A, game_B]
   \<and> subseq [game_B] [game_A, game_B]"
proof -
  have h: "check_games quiet_world (Some [game_A, game_B]) {''A - Free''} =
     (Completed [game_B] (notify_loop quiet_world free_games_role [game_B] []),
      {''A - Free'', ''B - Free''})"
    by (simp add: check_games_quiet key_A key_B)
  from delta_correct [OF h] h show ?thesis by simp
qed

text \<open>
  C2. When a cycle runs to its end, \<open>previous_games\<close> is the set of the keys of the list it
  fetched, whatever it held before; after an empty fetch it is empty.
\<close>

theorem snapshot_replaced:
  assumes "check_games w (Some latest) previous = (Completed added notices, snapshot)"
  shows "snapshot = identity_key ` set latest \<and> (latest = [] \<longrightarrow> snapshot = {})"
  using check_games_Completed(2) [OF assms] by simp

theorem snapshot_replaced_witness:
  "check_games quiet_world (Some []) {''A - Free''} = (Completed [] [], {})
   \<and> ({}::string set) = identity_key ` set []"
proof -
  have h: "check_games quiet_world (Some []) {''A - Free''} = (Completed [] [], {})"
    by (simp add: check_games_quiet)
  from snapshot_replaced [OF h] h show ?thesis by simp
qed

text \<open>
  C7. Two cycles in a row on the same fetched list, the second starting from the snapshot
  the first one left: the second announces nothing, and leaves the snapshot as it was.
\<close>

theorem noop_cycle:
  assumes "check_games w (Some latest) previous = (Completed added notices, snapshot)"
      and "check_games w' (Some latest) snapshot = (Completed added' notices', snapshot')"
  shows "added' = [] \<and> notices' = [] \<and> snapshot' = snapshot"
proof -
  have s: "snapshot = identity_key ` set latest"
    using assms(1) by (rule check_games_Completed(2))
  have a: "added' = filter (\<lambda>g. identity_key g \<notin> snapshot) latest"
    using assms(2) by (rule check_games_Completed(1))
  have e: "added' = []" unfolding a s by (simp add: filter_empty_conv)
  have "snapshot' = identity_key ` set latest"
    using assms(2) by (rule check_games_Completed(2))
  moreover have "notices' = []"
    using assms(2) e by (auto simp: check_games_def Let_def split: option.splits)
  ultimately show ?thesis using e s by simp
qed

theorem noop_cycle_witness:
  "check_games quiet_world (Some [game_A, game_B]) {} =
     (Completed [game_A, game_B] (notify_loop quiet_world free_games_role [game_A, game_B] []),
      {''A - Free'', ''B - Free''})
   \<and> check_games quiet_world (Some [game_A, game_B]) {''A - Free'', ''B - Free''} =
     (Completed [] [], {''A - Free'', ''B - Free''})"
proof -
  have h1: "check_games quiet_world (Some [game_A, game_B]) {} =
     (Completed [game_A, game_B] (notify_loop quiet_world free_games_role [game_A, game_B] []),
      {''A - Free'', ''B - Free''})"
    by (simp add: check_games_quiet key_A key_B)
  have h2: "check_games quiet_world (Some [game_A, game_B]) {''A - Free'', ''B - Free''} =
     (Completed [] [], {''A - Free'', ''B - Free''})"
    by (simp add: check_games_quiet key_A key_B)
  from noop_cycle [OF h1 h2] h1 h2 show ?thesis by simp
qed

section \<open>The division by 100\<close>

declare bit_length.simps [simp del]

lemma bit_length_bounds:
  "0 < n \<Longrightarrow> 2 ^ (bit_length n - 1) \<le> n \<and> n < 2 ^ bit_length n"
proof (induction n rule: bit_length.induct)
  case (1 n)
  show ?case
  proof (cases "n div 2 = 0")
    case True
    with "1.prems" have "n = 1" by auto
    then show ?thesis by (simp add: bit_length.simps)
  next
    case False
    then have pos: "0 < n div 2" by simp
    from "1.IH" "1.prems" pos
    have ih: "2 ^ (bit_length (n div 2) - 1) \<le> n div 2" "n div 2 < 2 ^ bit_length (n div 2)"
      by auto
    have bl: "bit_length n = Suc (bit_length (n div 2))"
      using "1.prems" by (subst bit_length.simps) simp
    have blpos: "0 < bit_length (n div 2)"
      using pos by (subst bit_length.simps) simp
    then obtain j where j: "bit_length (n div 2) = Suc j"
      by (cases "bit_length (n div 2)") auto
    have "2 ^ bit_length (n div 2) \<le> 2 * (n div 2)"
      using ih(1) by (simp add: j)
    then have lo: "2 ^ (bit_length n - 1) \<le> n" by (simp add: bl)
    have "n < 2 * (n div 2) + 2" by simp
    also have "\<dots> \<le> 2 * 2 ^ bit_length (n div 2)" using ih(2) by simp
    finally have "n < 2 ^ bit_length n" by (simp add: bl)
    with lo show ?thesis by simp
  qed
qed

lemma round_half_even_near: "\<bar>of_int (round_half_even x) - x\<bar> \<le> 1 / 2"
proof -
  have f: "of_int \<lfloor>x\<rfloor> \<le> x" "x < of_int \<lfloor>x\<rfloor> + 1"
    by linarith+
  show ?thesis
    unfolding round_half_even_def Let_def using f by (auto simp: abs_le_iff)
qed

lemma round_half_even_ge: "of_int n \<le> x \<Longrightarrow> n \<le> round_half_even x"
proof -
  assume "of_int n \<le> x"
  then have "n \<le> \<lfloor>x\<rfloor>" by (simp add: le_floor_iff)
  then show ?thesis unfolding round_half_even_def Let_def by auto
qed

lemma quotient_between:
  fixes a :: nat
  assumes "0 < a"
  shows "2 powi (int (bit_length a) - 8) < (of_nat a / 100 :: rat)"
    and "(of_nat a / 100 :: rat) < 2 powi (int (bit_length a) - 6)"
proof -
  let ?b = "bit_length a"
  from bit_length_bounds [OF assms] have lo: "2 ^ (?b - 1) \<le> a" and hi: "a < 2 ^ ?b"
    by simp_all
  have bpos: "0 < ?b" using assms by (subst bit_length.simps) simp
  then obtain j where j: "?b = Suc j" by (cases ?b) auto
  have lo': "(2::rat) ^ j \<le> of_nat a"
    using lo unfolding j by (metis diff_Suc_1 of_nat_le_iff of_nat_numeral of_nat_power)
  have hi': "(of_nat a :: rat) < 2 ^ ?b"
    using hi by (metis of_nat_less_iff of_nat_numeral of_nat_power)
  have e1: "(2::rat) powi (int ?b - 8) = 2 ^ j / 128"
    unfolding j by (simp add: power_int_diff)
  have e2: "(2::rat) powi (int ?b - 6) = 2 ^ ?b / 64"
    by (simp add: power_int_diff)
  have "(2::rat) ^ j / 128 < 2 ^ j / 100"
    by (simp add: divide_strict_left_mono)
  also have "\<dots> \<le> of_nat a / 100" using lo' by (simp add: divide_right_mono)
  finally show "2 powi (int ?b - 8) < (of_nat a / 100 :: rat)" by (simp add: e1)
  have "(of_nat a / 100 :: rat) < 2 ^ ?b / 100"
    using hi' by (simp add: divide_strict_right_mono)
  also have "\<dots> < 2 ^ ?b / 64" by (simp add: divide_strict_left_mono)
  finally show "(of_nat a / 100 :: rat) < 2 powi (int ?b - 6)" by (simp add: e2)
qed

lemma exponent_found:
  assumes "0 < a"
  shows "2 powi quotient_exponent a \<le> (of_nat a / 100 :: rat)"
    and "(of_nat a / 100 :: rat) < 2 powi (quotient_exponent a + 1)"
proof -
  let ?k = "int (bit_length a) - 7"
  from quotient_between [OF assms]
  have lo: "2 powi (?k - 1) < (of_nat a / 100 :: rat)"
    and hi: "(of_nat a / 100 :: rat) < 2 powi (?k + 1)"
    by (simp_all add: algebra_simps)
  show "2 powi quotient_exponent a \<le> (of_nat a / 100 :: rat)"
    using lo by (simp add: quotient_exponent_def Let_def)
  show "(of_nat a / 100 :: rat) < 2 powi (quotient_exponent a + 1)"
    using hi by (auto simp: quotient_exponent_def Let_def not_le)
qed

lemma rounded_quotient_bounds:
  assumes "0 < a"
  shows "(2::rat) powi quotient_exponent a \<le> rounded_quotient a"
    and "\<bar>rounded_quotient a - of_nat a / 100\<bar> \<le> of_nat a / 100 / 2 ^ 53"
proof -
  let ?e = "quotient_exponent a"
  let ?q = "of_nat a / 100 :: rat"
  let ?u = "(2::rat) powi (?e - 52)"
  let ?m = "round_half_even (?q / ?u)"
  have r: "rounded_quotient a = of_int ?m * ?u"
    by (simp add: rounded_quotient_def Let_def)
  have upos: "0 < ?u" by simp
  have u52: "?u * 2 ^ 52 = 2 powi ?e" by (simp add: power_int_diff)
  from exponent_found(1) [OF assms] have lo: "2 powi ?e \<le> ?q" .
  have "(2::rat) ^ 52 = 2 powi ?e / ?u" using u52 upos by (simp add: field_simps)
  also have "\<dots> \<le> ?q / ?u"
    using lo by (rule divide_right_mono) (simp add: less_imp_le [OF upos])
  finally have "of_int (2 ^ 52) \<le> ?q / ?u" by simp
  then have "2 ^ 52 \<le> ?m" by (rule round_half_even_ge)
  then have m52: "(2::rat) ^ 52 \<le> of_int ?m"
    by (metis of_int_le_iff of_int_numeral of_int_power)
  have "2 powi ?e = 2 ^ 52 * ?u" using u52 by (simp only: mult.commute)
  also have "\<dots> \<le> of_int ?m * ?u"
    using m52 by (rule mult_right_mono) (simp add: less_imp_le [OF upos])
  finally show "(2::rat) powi ?e \<le> rounded_quotient a" by (simp only: r)
  have near: "\<bar>of_int ?m - ?q / ?u\<bar> \<le> 1 / 2" by (rule round_half_even_near)
  have "of_int ?m * ?u - ?q = (of_int ?m - ?q / ?u) * ?u"
    using upos by (simp add: field_simps)
  then have "\<bar>of_int ?m * ?u - ?q\<bar> = \<bar>of_int ?m - ?q / ?u\<bar> * ?u"
    using upos by (simp add: abs_mult)
  also have "\<dots> \<le> 1 / 2 * ?u"
    using near by (rule mult_right_mono) (simp add: less_imp_le [OF upos])
  also have "\<dots> = 2 powi ?e / 2 ^ 53" using u52 by (simp add: field_simps)
  also have "\<dots> \<le> ?q / 2 ^ 53"
    using lo by (rule divide_right_mono) simp
  finally show "\<bar>rounded_quotient a - ?q\<bar> \<le> ?q / 2 ^ 53" by (simp only: r)
qed



lemma divide_by_100_overflow:
  assumes "100 * 2 ^ 1024 \<le> \<bar>p\<bar>"
  shows "divide_by_100 p = Inl OverflowError"
proof -
  have nz: "p \<noteq> 0" using assms by auto
  let ?a = "nat \<bar>p\<bar>"
  let ?e = "quotient_exponent ?a"
  have a: "0 < ?a" using nz by simp
  have "(100 * 2 ^ 1024 :: rat) \<le> of_int \<bar>p\<bar>"
    using assms by (metis of_int_le_iff of_int_mult of_int_numeral of_int_power)
  then have "(2::rat) powi 1024 \<le> of_nat ?a / 100" by simp
  also have "\<dots> < 2 powi (?e + 1)" by (rule exponent_found(2) [OF a])
  finally have lt: "(2::rat) powi 1024 < 2 powi (?e + 1)" .
  have "1024 < ?e + 1"
  proof (rule ccontr)
    assume "\<not> 1024 < ?e + 1"
    then have "?e + 1 \<le> 1024" by simp
    then have "(2::rat) powi (?e + 1) \<le> 2 powi 1024" by (rule power_int_increasing) simp
    with lt show False by simp
  qed
  then have "1024 \<le> ?e" by simp
  then have "(2::rat) powi 1024 \<le> 2 powi ?e" by (rule power_int_increasing) simp
  also have "\<dots> \<le> rounded_quotient ?a" by (rule rounded_quotient_bounds(1) [OF a])
  finally have "(2::rat) ^ 1024 \<le> rounded_quotient ?a" by simp
  then show ?thesis using nz by (simp add: divide_by_100_def Let_def)
qed

lemma divide_by_100_error: "divide_by_100 p = Inl err \<Longrightarrow> err = OverflowError"
  by (auto simp: divide_by_100_def Let_def split: if_splits)

lemma floor_rat_numeral: "\<lfloor>(numeral a / numeral b :: rat)\<rfloor> = numeral a div numeral b"
  using floor_divide_of_int_eq [of "numeral a" "numeral b", where ?'a = rat] by simp

lemmas divide_eval = divide_by_100_def rounded_quotient_def quotient_exponent_def
  bit_length.simps round_half_even_def Let_def power_int_minus floor_rat_numeral

lemma divide_1999: "divide_by_100 1999 = Inr (5626684784446013 / 281474976710656)"
  by (simp add: divide_eval)

lemma divide_minus_1999: "divide_by_100 (- 1999) = Inr (- 5626684784446013 / 281474976710656)"
  by (simp add: divide_eval)

lemma divide_500: "divide_by_100 500 = Inr 5"
  by (simp add: divide_eval)

lemma divide_huge: "divide_by_100 (10 ^ 400) = Inl OverflowError"
  by (rule divide_by_100_overflow) simp

section \<open>The fetch\<close>




lemma is_free_Val: "is_free g \<longleftrightarrow> raw_discount_percent g = Val 100"
  by (cases "raw_discount_percent g") (auto simp: is_free_def)

lemma price_of_cases:
  "price_of g =
     (case raw_original_price g of
        Absent \<Rightarrow> Inr 0 | Null \<Rightarrow> Inr 0 | Val p \<Rightarrow> divide_by_100 p)"
  by (cases "raw_original_price g") (simp_all add: price_of_def divide_by_100_def)


lemma make_offer_error: "make_offer g = Inl err \<Longrightarrow> err = OverflowError"
  by (auto simp: make_offer_def price_of_cases split: sum.splits member.splits
      dest: divide_by_100_error)

lemma collect_kept:
  "\<exists>kept. fst (collect its free_games) = free_games @ kept
     \<and> map Inr kept =
         map make_offer
           (filter is_free (takeWhile (\<lambda>g. is_free g \<longrightarrow> \<not> isl (make_offer g)) its))"
proof (induction its arbitrary: free_games)
  case Nil
  show ?case by simp
next
  case (Cons g rest)
  show ?case
  proof (cases "is_free g")
    case False
    with Cons.IH [of free_games] show ?thesis by simp
  next
    case True
    show ?thesis
    proof (cases "make_offer g")
      case (Inl err)
      with True show ?thesis by simp
    next
      case (Inr offer)
      from Cons.IH [of "free_games @ [offer]"] obtain kept
        where k: "fst (collect rest (free_games @ [offer])) = (free_games @ [offer]) @ kept"
          "map Inr kept =
             map make_offer
               (filter is_free (takeWhile (\<lambda>g. is_free g \<longrightarrow> \<not> isl (make_offer g)) rest))"
        by blast
      have "fst (collect (g # rest) free_games) = free_games @ (offer # kept)"
        using True Inr k(1) by simp
      moreover have "map Inr (offer # kept) =
          map make_offer
            (filter is_free (takeWhile (\<lambda>g. is_free g \<longrightarrow> \<not> isl (make_offer g)) (g # rest)))"
        using True Inr k(2) by simp
      ultimately show ?thesis by blast
    qed
  qed
qed

lemma collect_error: "snd (collect its free_games) = Some err \<Longrightarrow> err = OverflowError"
  by (induction its arbitrary: free_games)
     (auto split: if_splits sum.splits dest: make_offer_error)

lemma get_featured_cases: "get_featured_free_games r = Inr (fst (featured_try r []))"
  by (simp add: get_featured_free_games_def split: prod.splits option.splits)

lemma featured_200:
  "\<exists>kept. get_featured_free_games (Response 200 (Json data)) = Inr kept
     \<and> map Inr kept =
         map make_offer
           (filter is_free
              (takeWhile (\<lambda>g. is_free g \<longrightarrow> \<not> isl (make_offer g)) (specials_items data)))"
  using collect_kept [of "specials_items data" "[]"]
  by (simp add: get_featured_cases featured_try_def)

lemma specials_items_catalog: "specials_items \<lparr> specials = Some \<lparr> items = Some its \<rparr> \<rparr> = its"
  by (simp add: specials_items_def)

lemma featured_catalog:
  "get_featured_free_games (catalog its) = Inr (fst (collect its []))"
  by (simp add: catalog_def get_featured_cases featured_try_def specials_items_catalog)

lemma featured_try_catalog: "featured_try (catalog its) [] = collect its []"
  by (simp add: catalog_def featured_try_def specials_items_catalog)

lemma free_examples:
  "is_free paid_entry" "is_free huge_entry" "is_free bare_entry" "is_free repeat_entry"
  "is_free negative_price_entry"
  by (simp_all add: is_free_def paid_entry_def huge_entry_def bare_entry_def repeat_entry_def
      negative_price_entry_def)

lemma make_paid: "make_offer paid_entry = Inr portal_offer"
  by (simp add: make_offer_def price_of_def paid_entry_def portal_offer_def divide_1999
      store_url_base_def fmt_int_def str_int_def digit_char_def)

lemma make_refund: "make_offer negative_price_entry = Inr refund_offer"
  by (simp add: make_offer_def price_of_def negative_price_entry_def refund_offer_def
      divide_minus_1999 store_url_base_def fmt_int_def str_int_def digit_char_def)

lemma make_bare: "make_offer bare_entry = Inr bare_offer"
  by (simp add: make_offer_def price_of_def bare_entry_def bare_offer_def
      store_url_base_def fmt_int_def str_int_def digit_char_def)

lemma make_repeat: "make_offer repeat_entry = Inr repeat_offer"
  by (simp add: make_offer_def price_of_def repeat_entry_def repeat_offer_def divide_500
      store_url_base_def fmt_int_def str_int_def digit_char_def)

lemma make_huge: "make_offer huge_entry = Inl OverflowError"
proof -
  have "price_of huge_entry = Inl OverflowError"
    by (simp add: price_of_cases huge_entry_def divide_by_100_overflow)
  then show ?thesis by (simp add: make_offer_def)
qed

lemmas make_examples = make_paid make_refund make_bare make_repeat make_huge

lemma broken_catalog:
  "collect [paid_entry, huge_entry, bare_entry] [] = ([portal_offer], Some OverflowError)"
  by (simp add: free_examples make_examples)

text \<open>
  C3, as amended. On a successful response the fetch goes through the \<open>specials\<close> collection
  in order, up to the first entry at 100 percent whose dictionary cannot be built (its
  price does not fit a float); of the entries before that one it returns an offer for
  each entry whose \<open>discount_percent\<close> is 100 and none for any other entry. When every
  entry at 100 percent can be built, that is so for the whole collection.
\<close>

theorem filter_until_failure:
  "\<exists>kept. get_featured_free_games (Response 200 (Json data)) = Inr kept
     \<and> map Inr kept =
         map make_offer
           (filter (\<lambda>g. raw_discount_percent g = Val 100)
              (takeWhile (\<lambda>g. raw_discount_percent g = Val 100 \<longrightarrow> \<not> isl (make_offer g))
                 (specials_items data)))
     \<and> ((\<forall>g \<in> set (specials_items data).
            raw_discount_percent g = Val 100 \<longrightarrow> \<not> isl (make_offer g)) \<longrightarrow>
          map Inr kept =
            map make_offer
              (filter (\<lambda>g. raw_discount_percent g = Val 100) (specials_items data)))"
proof -
  from featured_200 [of data] obtain kept
    where k: "get_featured_free_games (Response 200 (Json data)) = Inr kept"
      "map Inr kept =
         map make_offer
           (filter (\<lambda>g. raw_discount_percent g = Val 100)
              (takeWhile (\<lambda>g. raw_discount_percent g = Val 100 \<longrightarrow> \<not> isl (make_offer g))
                 (specials_items data)))"
    unfolding is_free_Val by blast
  have t: "takeWhile (\<lambda>g. raw_discount_percent g = Val 100 \<longrightarrow> \<not> isl (make_offer g))
          (specials_items data) = specials_items data"
    if "\<forall>g \<in> set (specials_items data).
          raw_discount_percent g = Val 100 \<longrightarrow> \<not> isl (make_offer g)"
    using that by (simp add: takeWhile_eq_all_conv)
  have "map Inr kept =
      map make_offer (filter (\<lambda>g. raw_discount_percent g = Val 100) (specials_items data))"
    if "\<forall>g \<in> set (specials_items data).
          raw_discount_percent g = Val 100 \<longrightarrow> \<not> isl (make_offer g)"
    using k(2) by (simp only: t [OF that])
  with k show ?thesis by blast
qed

theorem filter_until_failure_witness:
  "get_featured_free_games
     (Response 200 (Json \<lparr> specials = Some \<lparr> items = Some [paid_entry, huge_entry, bare_entry] \<rparr> \<rparr>))
     = Inr [portal_offer]
   \<and> get_featured_free_games
     (Response 200 (Json \<lparr> specials = Some \<lparr> items = Some [paid_entry, bare_entry] \<rparr> \<rparr>))
     = Inr [portal_offer, bare_offer]
   \<and> make_offer paid_entry = Inr portal_offer
   \<and> make_offer huge_entry = Inl OverflowError
   \<and> make_offer bare_entry = Inr bare_offer"
proof -
  have d: "raw_discount_percent paid_entry = Val 100" "raw_discount_percent huge_entry = Val 100"
    "raw_discount_percent bare_entry = Val 100"
    using free_examples by (simp_all add: is_free_Val)
  from filter_until_failure
         [of "\<lparr> specials = Some \<lparr> items = Some [paid_entry, huge_entry, bare_entry] \<rparr> \<rparr>"]
       filter_until_failure
         [of "\<lparr> specials = Some \<lparr> items = Some [paid_entry, bare_entry] \<rparr> \<rparr>"]
  show ?thesis by (auto simp: specials_items_catalog d make_examples)
qed

text \<open>C3 as stated fails: of three entries at exactly 100 percent only the first gets an
  offer, because the price of the second does not fit a float.\<close>

theorem filter_counterexample:
  "get_featured_free_games (catalog [paid_entry, huge_entry, bare_entry]) = Inr [portal_offer]
   \<and> raw_discount_percent paid_entry = Val 100
   \<and> raw_discount_percent huge_entry = Val 100
   \<and> raw_discount_percent bare_entry = Val 100"
  using free_examples by (simp add: featured_catalog broken_catalog is_free_Val del: collect.simps)




text \<open>
  C6, as amended. Whatever the response, \<open>get_featured_free_games\<close> returns a list and lets no
  exception out. When the request fails or the body cannot be decoded, the exception
  (\<open>ClientError\<close>, \<open>DecodeError\<close>) is caught and that list is empty; it is empty too when the
  status is not 200. An exception raised while an entry is turned into an offer is caught
  as well, and the list then holds the offers built from the entries before that one.
\<close>

theorem fetch_never_raises:
  "(\<exists>games. get_featured_free_games r = Inr games)
   \<and> (snd (featured_try r []) \<in> {Some ClientError, Some DecodeError} \<longrightarrow>
        get_featured_free_games r = Inr [])
   \<and> (r = NoResponse \<longrightarrow> get_featured_free_games r = Inr [])
   \<and> (\<forall>st b. r = Response st b \<and> st \<noteq> 200 \<longrightarrow> get_featured_free_games r = Inr [])
   \<and> (\<forall>st. r = Response st Unparseable \<longrightarrow> get_featured_free_games r = Inr [])
   \<and> (\<forall>data. r = Response 200 (Json data) \<longrightarrow>
        (\<exists>kept. get_featured_free_games r = Inr kept
           \<and> map Inr kept =
               map make_offer
                 (filter is_free
                    (takeWhile (\<lambda>g. is_free g \<longrightarrow> \<not> isl (make_offer g))
                       (specials_items data)))))"
proof -
  have 1: "\<exists>games. get_featured_free_games r = Inr games"
    by (simp add: get_featured_cases)
  have 2: "get_featured_free_games r = Inr []"
    if "snd (featured_try r []) \<in> {Some ClientError, Some DecodeError}"
  proof (cases r)
    case NoResponse
    then show ?thesis by (simp add: get_featured_cases featured_try_def)
  next
    case (Response st b)
    show ?thesis
    proof (cases "st = 200")
      case False
      with Response show ?thesis by (simp add: get_featured_cases featured_try_def)
    next
      case True
      show ?thesis
      proof (cases b)
        case Unparseable
        with Response show ?thesis by (simp add: get_featured_cases featured_try_def)
      next
        case (Json data)
        with Response True that
        have "snd (collect (specials_items data) []) \<in> {Some ClientError, Some DecodeError}"
          by (simp add: featured_try_def)
        then show ?thesis by (auto dest: collect_error)
      qed
    qed
  qed
  have 3: "r = NoResponse \<longrightarrow> get_featured_free_games r = Inr []"
    by (simp add: get_featured_cases featured_try_def)
  have 4: "\<forall>st b. r = Response st b \<and> st \<noteq> 200 \<longrightarrow> get_featured_free_games r = Inr []"
    by (simp add: get_featured_cases featured_try_def)
  have 5: "\<forall>st. r = Response st Unparseable \<longrightarrow> get_featured_free_games r = Inr []"
    by (simp add: get_featured_cases featured_try_def)
  from 1 2 3 4 5 featured_200 show ?thesis by blast
qed

theorem fetch_never_raises_witness:
  "snd (featured_try (Response 200 Unparseable) []) = Some DecodeError
   \<and> get_featured_free_games (Response 200 Unparseable) = Inr []
   \<and> get_featured_free_games
        (Response 503 (Json \<lparr> specials = Some \<lparr> items = Some [paid_entry] \<rparr> \<rparr>)) = Inr []
   \<and> get_featured_free_games NoResponse = Inr []
   \<and> get_featured_free_games
        (Response 200 (Json \<lparr> specials = Some \<lparr> items = Some [paid_entry, huge_entry, bare_entry] \<rparr> \<rparr>))
        = Inr [portal_offer]"
  using fetch_never_raises [of "Response 200 Unparseable"]
    fetch_never_raises [of "Response 503 (Json \<lparr> specials = Some \<lparr> items = Some [paid_entry] \<rparr> \<rparr>)"]
    fetch_never_raises [of NoResponse]
    fetch_never_raises
      [of "Response 200 (Json \<lparr> specials = Some \<lparr> items = Some [paid_entry, huge_entry, bare_entry] \<rparr> \<rparr>)"]
  by (auto simp: featured_try_def specials_items_catalog free_examples make_examples)

text \<open>C6 as stated fails: the exception raised at the second entry is caught, and the
  list returned is not empty.\<close>

theorem partial_list_counterexample:
  "snd (featured_try (catalog [paid_entry, huge_entry, bare_entry]) []) = Some OverflowError
   \<and> get_featured_free_games (catalog [paid_entry, huge_entry, bare_entry]) = Inr [portal_offer]
   \<and> get_featured_free_games (catalog [paid_entry, huge_entry, bare_entry]) \<noteq> Inr []"
  by (simp add: featured_catalog featured_try_catalog broken_catalog del: collect.simps)

text \<open>
  C8, as amended. For an entry without image the offer's \<open>image_url\<close> is \<open>None\<close>; for an entry
  without \<open>discount_expiration\<close> the offer's \<open>discount_end\<close> is 0, and without raw price the
  offer is built with the price 0. The embed of such an offer is built without error, with
  the image as its thumbnail and with the store page as its only field: no field for the
  end of the offer.
\<close>

theorem missing_defaults:
  "(raw_original_price g = Absent \<longrightarrow>
      (\<exists>offer. make_offer g = Inr offer \<and> original_price offer = 0))
   \<and> (\<forall>offer. make_offer g = Inr offer \<longrightarrow>
        (raw_large_capsule_image g = Absent \<longrightarrow> image_url offer = None)
        \<and> (raw_discount_expiration g = Absent \<longrightarrow> discount_end offer = Some 0)
        \<and> (raw_discount_expiration g = Absent \<longrightarrow>
             build_embed offer =
               Inr \<lparr> title = name offer,
                     description_status = status offer,
                     description_price = original_price offer,
                     url = store_url offer,
                     thumbnail = image_url offer,
                     embed_fields = [StorePage (store_url offer)] \<rparr>))"
  by (auto simp: make_offer_def price_of_def build_embed_def split: sum.splits)

theorem missing_defaults_witness:
  "raw_large_capsule_image bare_entry = Absent \<and> raw_discount_expiration bare_entry = Absent
   \<and> raw_original_price bare_entry = Absent
   \<and> make_offer bare_entry = Inr bare_offer
   \<and> image_url bare_offer = None
   \<and> discount_end bare_offer = Some 0
   \<and> original_price bare_offer = 0
   \<and> build_embed bare_offer =
        Inr \<lparr> title = Some ''Bare'',
              description_status = ''Free to Keep!'',
              description_price = 0,
              url = ''https://store.steampowered.com/app/9'',
              thumbnail = None,
              embed_fields = [StorePage ''https://store.steampowered.com/app/9''] \<rparr>"
proof -
  have a: "raw_large_capsule_image bare_entry = Absent"
    "raw_discount_expiration bare_entry = Absent"
    "raw_original_price bare_entry = Absent"
    by (simp_all add: bare_entry_def)
  from missing_defaults [of bare_entry] a make_bare show ?thesis
    by (simp add: bare_offer_def)
qed

text \<open>C8 as stated fails: the offer of a kept entry without \<open>discount_expiration\<close> has a
  \<open>discount_end\<close> that is not \<open>None\<close>.\<close>

theorem discount_end_null_counterexample:
  "get_featured_free_games (catalog [bare_entry]) = Inr [bare_offer]
   \<and> raw_discount_expiration bare_entry = Absent
   \<and> discount_end bare_offer \<noteq> None"
proof -
  have "get_featured_free_games (catalog [bare_entry]) = Inr [bare_offer]"
    by (simp add: featured_catalog free_examples make_examples)
  moreover have "raw_discount_expiration bare_entry = Absent" by (simp add: bare_entry_def)
  moreover have "discount_end bare_offer \<noteq> None" by (simp add: bare_offer_def)
  ultimately show ?thesis by simp
qed

text \<open>
  C10. \<open>get_all_free_games\<close> returns a list for every response, never \<open>None\<close> and never an
  exception, so no run of \<open>check_free_games\<close> ends in the branch \<open>games is None\<close>.
\<close>

theorem never_none:
  "(\<exists>games. get_all_free_games r = Inr (Some games))
   \<and> fst (check_free_games w r previous) \<noteq> FailedToFetch
   \<and> (\<forall>e. fst (check_free_games w r previous) \<noteq> Raised e)"
  by (auto simp: get_all_free_games_def check_free_games_def get_featured_cases
      check_games_def Let_def split: option.splits)

section \<open>Removing duplicates\<close>

lemma unique_loop_acc:
  "unique_loop gs seen unique_games = unique_games @ unique_loop gs seen []"
proof (induction gs arbitrary: seen unique_games)
  case Nil
  show ?case by simp
next
  case (Cons g gs)
  show ?case
  proof (cases "name g \<in> seen")
    case True
    then show ?thesis using Cons.IH [of seen unique_games] by simp
  next
    case False
    then show ?thesis
      using Cons.IH [of "insert (name g) seen" "unique_games @ [g]"]
        Cons.IH [of "insert (name g) seen" "[g]"]
      by simp
  qed
qed

lemma unique_loop_Cons:
  "unique_loop (g # gs) seen [] =
     (if name g \<notin> seen then g # unique_loop gs (insert (name g) seen) []
      else unique_loop gs seen [])"
  using unique_loop_acc [of gs "insert (name g) seen" "[g]"] by simp

lemma unique_loop_names: "name ` set (unique_loop gs seen []) = name ` set gs - seen"
  by (induction gs arbitrary: seen)
     (auto simp: unique_loop_Cons simp del: unique_loop.simps(2))

lemma unique_loop_distinct: "distinct (map name (unique_loop gs seen []))"
proof (induction gs arbitrary: seen)
  case Nil
  show ?case by simp
next
  case (Cons g gs)
  have "name g \<notin> name ` set (unique_loop gs (insert (name g) seen) [])"
    by (simp add: unique_loop_names)
  then show ?case using Cons.IH by (simp add: unique_loop_Cons del: unique_loop.simps(2))
qed

lemma unique_loop_subseq: "subseq (unique_loop gs seen []) gs"
  by (induction gs arbitrary: seen)
     (auto simp: unique_loop_Cons simp del: unique_loop.simps(2))

lemma unique_loop_first:
  "g \<in> set (unique_loop gs seen []) \<Longrightarrow> find (\<lambda>h. name h = name g) gs = Some g"
proof (induction gs arbitrary: seen)
  case Nil
  then show ?case by simp
next
  case (Cons x xs)
  show ?case
  proof (cases "name x \<in> seen")
    case True
    with Cons.prems have m: "g \<in> set (unique_loop xs seen [])"
      by (simp add: unique_loop_Cons del: unique_loop.simps(2))
    then have "name g \<in> name ` set xs - seen"
      using unique_loop_names [of xs seen] by blast
    with True have "name x \<noteq> name g" by auto
    with Cons.IH [OF m] show ?thesis by simp
  next
    case False
    with Cons.prems have "g = x \<or> g \<in> set (unique_loop xs (insert (name x) seen) [])"
      by (simp add: unique_loop_Cons del: unique_loop.simps(2))
    then show ?thesis
    proof
      assume "g = x"
      then show ?thesis by simp
    next
      assume m: "g \<in> set (unique_loop xs (insert (name x) seen) [])"
      then have "name g \<in> name ` set xs - insert (name x) seen"
        using unique_loop_names [of xs "insert (name x) seen"] by blast
      then have "name x \<noteq> name g" by auto
      with Cons.IH [OF m] show ?thesis by simp
    qed
  qed
qed

lemma unique_loop_snoc:
  "unique_loop (gs @ [x]) seen [] =
     unique_loop gs seen [] @ (if name x \<in> seen \<union> name ` set gs then [] else [x])"
  by (induction gs arbitrary: seen)
     (auto simp: unique_loop_Cons simp del: unique_loop.simps(2))

lemma later_duplicates_snoc:
  "later_duplicates (gs @ [x]) =
     later_duplicates gs @ (if name x \<in> name ` set gs then [length gs] else [])"
proof -
  have "filter (\<lambda>i. name ((gs @ [x]) ! i) \<in> name ` set (take i (gs @ [x]))) [0..<length gs] =
        filter (\<lambda>i. name (gs ! i) \<in> name ` set (take i gs)) [0..<length gs]"
    by (rule filter_cong) (simp_all add: nth_append)
  then show ?thesis by (simp add: later_duplicates_def)
qed

lemma unique_loop_length:
  "length (unique_loop gs {} []) + length (later_duplicates gs) = length gs"
  by (induction gs rule: rev_induct)
     (simp_all add: unique_loop_snoc later_duplicates_snoc, simp add: later_duplicates_def)

lemma get_all_unique:
  "get_featured_free_games r = Inr gs \<Longrightarrow>
   get_all_free_games r = Inr (Some (unique_loop gs {} []))"
  by (cases gs) (simp_all add: get_all_free_games_def)

text \<open>
  C4. From a merged list of games the loop keeps exactly one game for each name that
  occurs: the first one of that name, in the order in which the names first occur; so the
  result is shorter than the list by the number of occurrences of a name after its
  first. \<open>get_all_free_games\<close> returns the list of the featured games treated so.
\<close>

theorem dedup_correct:
  "distinct (map name (unique_loop gs {} []))
   \<and> name ` set (unique_loop gs {} []) = name ` set gs
   \<and> subseq (unique_loop gs {} []) gs
   \<and> (\<forall>g \<in> set (unique_loop gs {} []). find (\<lambda>h. name h = name g) gs = Some g)
   \<and> length (unique_loop gs {} []) = length gs - length (later_duplicates gs)
   \<and> (get_featured_free_games r = Inr gs \<longrightarrow>
        get_all_free_games r = Inr (Some (unique_loop gs {} [])))"
proof -
  have "length (unique_loop gs {} []) = length gs - length (later_duplicates gs)"
    using unique_loop_length [of gs] by arith
  then show ?thesis
    by (simp add: unique_loop_distinct unique_loop_names unique_loop_subseq
        unique_loop_first get_all_unique)
qed

theorem dedup_correct_witness:
  "get_featured_free_games (catalog [paid_entry, bare_entry, repeat_entry]) =
     Inr [portal_offer, bare_offer, repeat_offer]
   \<and> get_all_free_games (catalog [paid_entry, bare_entry, repeat_entry]) =
     Inr (Some [portal_offer, bare_offer])
   \<and> unique_loop [portal_offer, bare_offer, repeat_offer] {} [] = [portal_offer, bare_offer]
   \<and> name repeat_offer = name portal_offer
   \<and> repeat_offer \<noteq> portal_offer
   \<and> later_duplicates [portal_offer, bare_offer, repeat_offer] = [2]
   \<and> find (\<lambda>h. name h = name portal_offer) [portal_offer, bare_offer, repeat_offer]
     = Some portal_offer"
proof -
  have n: "name portal_offer = Some ''Portal''"
    "name bare_offer = Some ''Bare''"
    "name repeat_offer = Some ''Portal''"
    by (simp_all add: portal_offer_def bare_offer_def repeat_offer_def)
  have d: "repeat_offer \<noteq> portal_offer"
    by (simp add: portal_offer_def repeat_offer_def)
  have f: "get_featured_free_games (catalog [paid_entry, bare_entry, repeat_entry]) =
     Inr [portal_offer, bare_offer, repeat_offer]"
    by (simp add: featured_catalog free_examples make_examples)
  have u: "unique_loop [portal_offer, bare_offer, repeat_offer] {} []
      = [portal_offer, bare_offer]"
    by (simp add: n)
  have l: "later_duplicates [portal_offer, bare_offer, repeat_offer] = [2]"
    by (simp add: later_duplicates_def upt_rec n)
  from dedup_correct [of "[portal_offer, bare_offer, repeat_offer]"
      "catalog [paid_entry, bare_entry, repeat_entry]"] f u l d n
  show ?thesis by simp
qed

section \<open>Notifications\<close>

lemma notify_loop_acc: "notify_loop w rl gs noted = noted @ notify_loop w rl gs []"
proof (induction gs arbitrary: noted)
  case Nil
  show ?case by simp
next
  case (Cons g gs)
  show ?case
  proof (cases "try_notify w rl g")
    case (Inl err)
    then show ?thesis
      using Cons.IH [of "noted @ [NotifyError g err]"] Cons.IH [of "[NotifyError g err]"]
      by simp
  next
    case (Inr m)
    then show ?thesis
      using Cons.IH [of "noted @ [Notified g m]"] Cons.IH [of "[Notified g m]"] by simp
  qed
qed

lemma notify_loop_Cons:
  "notify_loop w rl (g # gs) [] = notice_of w rl g # notify_loop w rl gs []"
  using notify_loop_acc [of w rl gs "[notice_of w rl g]"]
  by (simp add: notice_of_def split: sum.splits)

lemma notify_loop_append:
  "notify_loop w rl (xs @ ys) [] = notify_loop w rl xs [] @ notify_loop w rl ys []"
  by (induction xs) (simp_all add: notify_loop_Cons del: notify_loop.simps(2))

lemma notify_loop_sent:
  "c \<in> set gs \<Longrightarrow> try_notify w rl c = Inr m \<Longrightarrow>
   Notified c m \<in> set (notify_loop w rl gs [])"
  by (induction gs) (auto simp: notify_loop_Cons notice_of_def simp del: notify_loop.simps(2))

text \<open>
  C9. When the notification of a game \<open>b\<close> of the batch raises, the loop logs the error and
  goes on: the games after \<open>b\<close> are treated as they would be without \<open>b\<close>, and each of them
  whose own notification does not raise is sent.
\<close>

theorem send_isolation:
  assumes "try_notify w rl b = Inl err"
  shows "notify_loop w rl (pre @ b # post) [] =
           notify_loop w rl pre [] @ NotifyError b err # notify_loop w rl post []
       \<and> (\<forall>c \<in> set post. \<forall>m. try_notify w rl c = Inr m \<longrightarrow>
             Notified c m \<in> set (notify_loop w rl (pre @ b # post) []))"
proof -
  have "notice_of w rl b = NotifyError b err"
    using assms by (simp add: notice_of_def)
  then have e: "notify_loop w rl (pre @ b # post) [] =
           notify_loop w rl pre [] @ NotifyError b err # notify_loop w rl post []"
    by (simp add: notify_loop_append notify_loop_Cons del: notify_loop.simps(2))
  have "Notified c m \<in> set (notify_loop w rl (pre @ b # post) [])"
    if "c \<in> set post" "try_notify w rl c = Inr m" for c m
    using notify_loop_sent [OF that] e by simp
  with e show ?thesis by blast
qed

theorem send_isolation_witness:
  "try_notify flaky_world free_games_role game_B = Inl HTTPException
   \<and> try_notify flaky_world free_games_role game_C =
       Inr \<lparr> content = ''Hey <@&7>, a new free game is available!'',
             message_embed =
               \<lparr> title = Some ''C'', description_status = ''Free'', description_price = 0,
                 url = ''https://store.steampowered.com/app/4'', thumbnail = None,
                 embed_fields = [StorePage ''https://store.steampowered.com/app/4''] \<rparr> \<rparr>
   \<and> notify_loop flaky_world free_games_role ([game_A] @ game_B # [game_C]) [] =
       notify_loop flaky_world free_games_role [game_A] []
         @ NotifyError game_B HTTPException # notify_loop flaky_world free_games_role [game_C] []
   \<and> Notified game_C
         \<lparr> content = ''Hey <@&7>, a new free game is available!'',
           message_embed =
             \<lparr> title = Some ''C'', description_status = ''Free'', description_price = 0,
               url = ''https://store.steampowered.com/app/4'', thumbnail = None,
               embed_fields = [StorePage ''https://store.steampowered.com/app/4''] \<rparr> \<rparr>
       \<in> set (notify_loop flaky_world free_games_role ([game_A] @ game_B # [game_C]) [])"
proof -
  have b: "try_notify flaky_world free_games_role game_B = Inl HTTPException"
    by (simp add: try_notify_def build_embed_def flaky_world_def game_B_def
        free_games_role_def Let_def)
  have c: "try_notify flaky_world free_games_role game_C =
       Inr \<lparr> content = ''Hey <@&7>, a new free game is available!'',
             message_embed =
               \<lparr> title = Some ''C'', description_status = ''Free'', description_price = 0,
                 url = ''https://store.steampowered.com/app/4'', thumbnail = None,
                 embed_fields = [StorePage ''https://store.steampowered.com/app/4''] \<rparr> \<rparr>"
    by (simp add: try_notify_def build_embed_def flaky_world_def game_C_def
        free_games_role_def Let_def)
  from send_isolation [OF b, of "[game_A]" "[game_C]"] b c show ?thesis by simp
qed

end
